theory Spec2Isabelle
  imports Complex_Main
begin

section \<open>Data model (src/main.py, lines 10-39)\<close>

text \<open>
  The two enumerations of the source. \<open>type_name\<close> is the \<open>.name\<close> attribute of a
  \<open>VehicleType\<close> member, used to build slot identifiers.
\<close>

datatype VehicleType = CAR | MOTORCYCLE | TRUCK

datatype SlotStatus = AVAILABLE | OCCUPIED | RESERVED

fun type_name :: "VehicleType \<Rightarrow> string" where
  "type_name CAR = ''CAR''"
| "type_name MOTORCYCLE = ''MOTORCYCLE''"
| "type_name TRUCK = ''TRUCK''"

text \<open>
  The dataclass \<open>Vehicle\<close>. Timestamps are Python floats (seconds); they are modelled as
  real numbers. Vehicle objects are mutable and shared by reference between the caller and
  the slot that holds them, so they live in a store and are passed around as references.
\<close>

record Vehicle =
  vehicle_id :: string
  license_plate :: string
  vehicle_type :: VehicleType
  owner_name :: string
  entry_time :: real
  parking_slot_id :: "string option"

type_synonym vehicle_ref = nat

text \<open>
  The class \<open>ParkingSlot\<close>. The field \<open>vehicle_type\<close> of the source is named
  \<open>slot_vehicle_type\<close> here, since the record \<open>Vehicle\<close> has a field of that name.
  \<open>next_slot\<close> and \<open>prev_slot\<close> refer to the neighbouring slot objects; they are
  represented by the neighbour's identifier.
\<close>

record ParkingSlot =
  slot_id :: string
  slot_vehicle_type :: VehicleType
  status :: SlotStatus
  vehicle :: "vehicle_ref option"
  next_slot :: "string option"
  prev_slot :: "string option"
  reservation_time :: "real option"

definition ParkingSlot_init :: "string \<Rightarrow> VehicleType \<Rightarrow> ParkingSlot" where
  "ParkingSlot_init sid vt =
     \<lparr>slot_id = sid, slot_vehicle_type = vt, status = AVAILABLE, vehicle = None,
      next_slot = None, prev_slot = None, reservation_time = None\<rparr>"

section \<open>Dictionaries\<close>

text \<open>
  A Python \<open>dict\<close> keeps its keys in insertion order, and \<open>remove_vehicle\<close> iterates over
  \<open>self.slots.values()\<close>: dictionaries are association lists in which an assignment
  to an existing key keeps the key's position.
\<close>

fun dict_get :: "('k \<times> 'v) list \<Rightarrow> 'k \<Rightarrow> 'v option" where
  "dict_get [] k = None"
| "dict_get ((k', v) # d) k = (if k' = k then Some v else dict_get d k)"

fun dict_set :: "('k \<times> 'v) list \<Rightarrow> 'k \<Rightarrow> 'v \<Rightarrow> ('k \<times> 'v) list" where
  "dict_set [] k v = [(k, v)]"
| "dict_set ((k', v') # d) k v =
     (if k' = k then (k, v) # d else (k', v') # dict_set d k v)"

section \<open>The manager's state (src/main.py, lines 53-67)\<close>

text \<open>
  \<open>lock\<close> is the state of \<open>self.lock\<close>, a \<open>threading.Lock\<close>: held or free.
  \<open>heap\<close> is the store of vehicle objects. The dictionary \<open>users\<close> is touched by
  \<open>register_user\<close> only and is left out.
\<close>

record state =
  lock :: bool
  slots :: "(VehicleType \<times> ParkingSlot list) list"
  total_slots :: "(VehicleType \<times> int) list"
  heap :: "vehicle_ref \<Rightarrow> Vehicle"

datatype py_error = KeyError | RuntimeError

text \<open>
  A call returns a value, raises, or never returns: \<open>threading.Lock\<close> is not reentrant,
  and acquiring it while it is held blocks until somebody releases it. Each outcome
  carries the state the call leaves behind (for \<open>Blocks\<close>: the state in which it hangs).
\<close>

datatype 'a outcome = Returns 'a state | Raises py_error state | Blocks state

fun final_state :: "'a outcome \<Rightarrow> state" where
  "final_state (Returns r s) = s"
| "final_state (Raises e s) = s"
| "final_state (Blocks s) = s"

fun returned :: "'a option outcome \<Rightarrow> 'a option" where
  "returned (Returns r s) = r"
| "returned (Raises e s) = None"
| "returned (Blocks s) = None"

text \<open>
  \<open>with self.lock: body\<close>. Entering acquires the lock, and blocks when it is held.
  Leaving, by return or by exception, releases it; releasing a free
  \<open>threading.Lock\<close> raises \<open>RuntimeError\<close>.
\<close>

definition with_lock :: "(state \<Rightarrow> 'a outcome) \<Rightarrow> state \<Rightarrow> 'a outcome" where
  "with_lock body s =
     (if lock s then Blocks s
      else (case body (s\<lparr>lock := True\<rparr>) of
              Returns r s' \<Rightarrow>
                (if lock s' then Returns r (s'\<lparr>lock := False\<rparr>) else Raises RuntimeError s')
            | Raises e s' \<Rightarrow>
                (if lock s' then Raises e (s'\<lparr>lock := False\<rparr>) else Raises RuntimeError s')
            | Blocks s' \<Rightarrow> Blocks s'))"

section \<open>Initialisation (src/main.py, lines 55-87)\<close>

text \<open>\<open>str\<close> of a non-negative integer: its decimal digits.\<close>

fun str_nat :: "nat \<Rightarrow> string" where
  "str_nat n =
     (if n < 10 then [''0123456789'' ! n]
      else str_nat (n div 10) @ [''0123456789'' ! (n mod 10)])"

declare str_nat.simps [simp del]

text \<open>
  The body of the inner loop, lines 82-87: link the new slot behind the last one, if
  there is one, and append it.
\<close>

definition append_slot :: "ParkingSlot list \<Rightarrow> ParkingSlot \<Rightarrow> ParkingSlot list" where
  "append_slot sls slot =
     (if sls \<noteq> []
      then butlast sls @
           [(last sls)\<lparr>next_slot := Some (slot_id slot)\<rparr>,
            slot\<lparr>prev_slot := Some (slot_id (last sls))\<rparr>]
      else [slot])"

text \<open>The inner loop, \<open>for i in range(count)\<close>: empty when \<open>count\<close> is not positive.\<close>

definition create_slots :: "VehicleType \<Rightarrow> int \<Rightarrow> ParkingSlot list" where
  "create_slots vt count =
     foldl (\<lambda>sls i. append_slot sls
                      (ParkingSlot_init (type_name vt @ ''_SLOT_'' @ str_nat (i + 1)) vt))
           [] [0..<nat count]"

definition initialize_slots :: "(VehicleType \<times> int) list \<Rightarrow> state \<Rightarrow> state" where
  "initialize_slots slot_config s =
     foldl (\<lambda>s (vt, count).
              s\<lparr>total_slots := dict_set (total_slots s) vt count,
                slots := dict_set (slots s) vt (create_slots vt count)\<rparr>)
           s slot_config"

text \<open>
  \<open>ParkingLotManager.__init__\<close>. The store of vehicle objects is the caller's; it is a
  parameter.
\<close>

definition ParkingLotManager_init ::
    "(VehicleType \<times> int) list \<Rightarrow> (vehicle_ref \<Rightarrow> Vehicle) \<Rightarrow> state" where
  "ParkingLotManager_init slot_config h =
     initialize_slots slot_config \<lparr>lock = False, slots = [], total_slots = [], heap = h\<rparr>"

section \<open>Operations (src/main.py, lines 95-144)\<close>

text \<open>
  The scan of \<open>find_available_slot\<close>: the position of the first slot whose status is
  \<open>AVAILABLE\<close>. A position in a category's list stands for the slot object there.
\<close>

fun first_available :: "ParkingSlot list \<Rightarrow> nat option" where
  "first_available [] = None"
| "first_available (sl # sls) =
     (if status sl = AVAILABLE then Some 0 else map_option Suc (first_available sls))"

definition slots_of :: "state \<Rightarrow> VehicleType \<Rightarrow> ParkingSlot list" where
  \<comment> \<open>\<open>self.slots.get(vehicle_type, [])\<close>\<close>
  "slots_of s vt = (case dict_get (slots s) vt of None \<Rightarrow> [] | Some sls \<Rightarrow> sls)"

definition find_available_slot :: "VehicleType \<Rightarrow> state \<Rightarrow> nat option outcome" where
  "find_available_slot vt = with_lock (\<lambda>s. Returns (first_available (slots_of s vt)) s)"

text \<open>
  Lines 108-125 of \<open>park_vehicle\<close>: what the method does with the answer \<open>slot\<close> of
  the lookup. \<open>now\<close> is the value of \<open>time.time()\<close> at line 121. The value returned is
  the slot object, given as its contents at the time of the return.
\<close>

definition park_after_lookup ::
    "real \<Rightarrow> vehicle_ref \<Rightarrow> nat option \<Rightarrow> state \<Rightarrow> ParkingSlot option outcome" where
  "park_after_lookup now v slot s =
     (case slot of
        None \<Rightarrow> Returns None s
      | Some i \<Rightarrow>
          let vt = vehicle_type (heap s v) in
          (case dict_get (slots s) vt of
             None \<Rightarrow> Raises KeyError s
           | Some sls \<Rightarrow>
               let occupied_count = length (filter (\<lambda>sl. status sl = OCCUPIED) sls) in
               (case dict_get (total_slots s) vt of
                  None \<Rightarrow> Raises KeyError s
                | Some cap \<Rightarrow>
                    if int occupied_count \<ge> cap then Returns None s
                    else
                      let slot = (sls ! i)\<lparr>status := OCCUPIED, vehicle := Some v,
                                           reservation_time := Some now\<rparr>
                      in Returns (Some slot)
                           (s\<lparr>slots := dict_set (slots s) vt (sls[i := slot]),
                              heap := (heap s)
                                (v := (heap s v)\<lparr>parking_slot_id := Some (slot_id slot)\<rparr>)\<rparr>))))"

text \<open>
  \<open>park_vehicle\<close>: under the lock, line 106 calls \<open>find_available_slot\<close>, which takes
  the lock itself, and lines 108-125 go on with its answer.
\<close>

definition park_vehicle :: "real \<Rightarrow> vehicle_ref \<Rightarrow> state \<Rightarrow> ParkingSlot option outcome" where
  "park_vehicle now v =
     with_lock (\<lambda>s.
       case find_available_slot (vehicle_type (heap s v)) s of
         Blocks s' \<Rightarrow> Blocks s'
       | Raises e s' \<Rightarrow> Raises e s'
       | Returns slot s' \<Rightarrow> park_after_lookup now v slot s')"

text \<open>
  The two nested loops of \<open>remove_vehicle\<close>: the first slot, in the order of the
  dictionary and then of the category's list, whose identifier is \<open>sid\<close> and whose status
  is \<open>OCCUPIED\<close> is cleared; the result is the value of its \<open>vehicle\<close> field and the new
  lists, or \<open>None\<close> when the loops run to their end.
\<close>

fun remove_in_list ::
    "string \<Rightarrow> ParkingSlot list \<Rightarrow> (vehicle_ref option \<times> ParkingSlot list) option" where
  "remove_in_list sid [] = None"
| "remove_in_list sid (sl # sls) =
     (if slot_id sl = sid \<and> status sl = OCCUPIED
      then Some (vehicle sl,
                 sl\<lparr>status := AVAILABLE, vehicle := None, reservation_time := None\<rparr> # sls)
      else map_option (\<lambda>(v, sls'). (v, sl # sls')) (remove_in_list sid sls))"

fun remove_in_dict ::
    "string \<Rightarrow> (VehicleType \<times> ParkingSlot list) list \<Rightarrow>
     (vehicle_ref option \<times> (VehicleType \<times> ParkingSlot list) list) option" where
  "remove_in_dict sid [] = None"
| "remove_in_dict sid ((vt, sls) # d) =
     (case remove_in_list sid sls of
        Some (v, sls') \<Rightarrow> Some (v, (vt, sls') # d)
      | None \<Rightarrow> map_option (\<lambda>(v, d'). (v, (vt, sls) # d')) (remove_in_dict sid d))"

definition remove_vehicle :: "string \<Rightarrow> state \<Rightarrow> vehicle_ref option outcome" where
  "remove_vehicle sid =
     with_lock (\<lambda>s.
       case remove_in_dict sid (slots s) of
         Some (v, d') \<Rightarrow> Returns v (s\<lparr>slots := d'\<rparr>)
       | None \<Rightarrow> Returns None s)"

text \<open>
  \<open>get_parking_fee\<close>, with \<open>now\<close> the value of \<open>time.time()\<close> at line 142. The
  arithmetic is that of the real numbers: the rounding, the overflow and the NaN of
  Python's doubles are not modelled.
\<close>

definition get_parking_fee :: "real \<Rightarrow> Vehicle \<Rightarrow> real" where
  "get_parking_fee now veh =
     (let duration = now - entry_time veh;
          hourly_rate = 5
      in max (hourly_rate * (duration / 3600)) hourly_rate)"

section \<open>Observations and reachable states\<close>

text \<open>The number of slots of a category whose status is \<open>OCCUPIED\<close>.\<close>

definition occupied_count :: "state \<Rightarrow> VehicleType \<Rightarrow> nat" where
  "occupied_count s vt = length (filter (\<lambda>sl. status sl = OCCUPIED) (slots_of s vt))"

text \<open>Every slot of the pool, in the order in which \<open>remove_vehicle\<close> visits them.\<close>

definition all_slots :: "state \<Rightarrow> ParkingSlot list" where
  "all_slots s = concat (map snd (slots s))"

text \<open>
  The three fields of a slot that describe its occupancy agree: there is an occupant
  exactly when the status is \<open>OCCUPIED\<close>, exactly when \<open>reservation_time\<close> is set.
\<close>

definition slot_consistent :: "ParkingSlot \<Rightarrow> bool" where
  "slot_consistent sl =
     (((vehicle sl \<noteq> None) = (status sl = OCCUPIED)) \<and>
      ((status sl = OCCUPIED) = (reservation_time sl \<noteq> None)))"

definition state_consistent :: "state \<Rightarrow> bool" where
  "state_consistent s = list_all slot_consistent (all_slots s)"

definition dict_consistent :: "(VehicleType \<times> ParkingSlot list) list \<Rightarrow> bool" where
  "dict_consistent d = list_all slot_consistent (concat (map snd d))"

text \<open>Every recorded capacity comes with a list of that many slots.\<close>

definition sized ::
    "(VehicleType \<times> int) list \<Rightarrow> (VehicleType \<times> ParkingSlot list) list \<Rightarrow> bool" where
  "sized t d =
     (\<forall>vt c. dict_get t vt = Some c \<longrightarrow>
        (\<exists>sls. dict_get d vt = Some sls \<and> length sls = nat c))"

text \<open>
  The states of a manager built from \<open>slot_config\<close>: the state after \<open>__init__\<close>, and
  the state any call of \<open>park_vehicle\<close> or \<open>remove_vehicle\<close> leaves behind, whether
  it returns or hangs. Between the calls the caller may create vehicle objects and write
  to them.
\<close>

inductive reachable :: "(VehicleType \<times> int) list \<Rightarrow> state \<Rightarrow> bool"
  for slot_config :: "(VehicleType \<times> int) list" where
  init: "reachable slot_config (ParkingLotManager_init slot_config h)"
| park: "reachable slot_config s \<Longrightarrow>
         reachable slot_config (final_state (park_vehicle now v s))"
| remove: "reachable slot_config s \<Longrightarrow>
           reachable slot_config (final_state (remove_vehicle sid s))"
| caller: "reachable slot_config s \<Longrightarrow> reachable slot_config (s\<lparr>heap := h\<rparr>)"

text \<open>
  What lines 134-136 of \<open>remove_vehicle\<close> do to the slot named \<open>sid\<close>; any other
  slot is left as it is.
\<close>

definition release_slot :: "string \<Rightarrow> ParkingSlot \<Rightarrow> ParkingSlot" where
  "release_slot sid sl =
     (if slot_id sl = sid
      then sl\<lparr>status := AVAILABLE, vehicle := None, reservation_time := None\<rparr>
      else sl)"

section \<open>Concrete inputs\<close>

text \<open>
  Two vehicles, a car created at time 10 and a truck created at time 20, and a store in
  which reference 0 is the car and every other reference the truck.
\<close>

definition vehicle_A :: Vehicle where
  "vehicle_A = \<lparr>vehicle_id = ''A'', license_plate = ''KA-01'', vehicle_type = CAR,
                 owner_name = ''asha'', entry_time = 10, parking_slot_id = None\<rparr>"

definition vehicle_B :: Vehicle where
  "vehicle_B = \<lparr>vehicle_id = ''B'', license_plate = ''KA-02'', vehicle_type = TRUCK,
                 owner_name = ''bala'', entry_time = 20, parking_slot_id = None\<rparr>"

definition garage :: "vehicle_ref \<Rightarrow> Vehicle" where
  "garage r = (if r = 0 then vehicle_A else vehicle_B)"

text \<open>
  A lot with one car slot whose fields say that vehicle 0 has occupied it since time
  \<open>t\<close>.
\<close>

definition lot_occupied :: "real \<Rightarrow> state" where
  "lot_occupied t =
     \<lparr>lock = False,
      slots = [(CAR, [(ParkingSlot_init ''CAR_SLOT_1'' CAR)
                        \<lparr>status := OCCUPIED, vehicle := Some 0, reservation_time := Some t\<rparr>])],
      total_slots = [(CAR, 1)],
      heap = garage\<rparr>"

section \<open>The lock\<close>

lemma with_lock_held: "lock s \<Longrightarrow> with_lock body s = Blocks s"
  by (simp add: with_lock_def)

lemma find_available_slot_held: "lock s \<Longrightarrow> find_available_slot vt s = Blocks s"
  by (simp add: find_available_slot_def with_lock_held)

lemma find_available_slot_free:
  "\<not> lock s \<Longrightarrow> find_available_slot vt s = Returns (first_available (slots_of s vt)) s"
  by (simp add: find_available_slot_def with_lock_def slots_of_def)

text \<open>
  \<open>park_vehicle\<close> never returns: when the lock is free it takes it and then waits for it
  inside \<open>find_available_slot\<close>; when the lock is held it waits at its own \<open>with\<close>.
\<close>

lemma park_vehicle_blocks: "park_vehicle now v s = Blocks (s\<lparr>lock := True\<rparr>)"
proof (cases "lock s")
  case True
  then have "s\<lparr>lock := True\<rparr> = s" by simp
  with True show ?thesis by (simp add: park_vehicle_def with_lock_held)
next
  case False
  have "find_available_slot vt (s\<lparr>lock := True\<rparr>) = Blocks (s\<lparr>lock := True\<rparr>)" for vt
    by (rule find_available_slot_held) simp
  with False show ?thesis by (simp add: park_vehicle_def with_lock_def Let_def)
qed

section \<open>The concrete lots\<close>

lemma lot1: "ParkingLotManager_init [(CAR, 1)] h =
   \<lparr>lock = False, slots = [(CAR, [ParkingSlot_init ''CAR_SLOT_1'' CAR])],
    total_slots = [(CAR, 1)], heap = h\<rparr>"
  by (simp add: ParkingLotManager_init_def initialize_slots_def create_slots_def
      append_slot_def str_nat.simps)

lemma lot0: "ParkingLotManager_init [(CAR, 0)] h =
   \<lparr>lock = False, slots = [(CAR, [])], total_slots = [(CAR, 0)], heap = h\<rparr>"
  by (simp add: ParkingLotManager_init_def initialize_slots_def create_slots_def)

lemma lot_neg: "ParkingLotManager_init [(CAR, - 1)] h =
   \<lparr>lock = False, slots = [(CAR, [])], total_slots = [(CAR, - 1)], heap = h\<rparr>"
  by (simp add: ParkingLotManager_init_def initialize_slots_def create_slots_def)

section \<open>Dictionaries and initialisation\<close>

lemma dict_get_dict_set:
  "dict_get (dict_set d k v) k' = (if k' = k then Some v else dict_get d k')"
  by (induction d k v rule: dict_set.induct) auto

lemma set_dict_set: "set (dict_set d k v) \<subseteq> insert (k, v) (set d)"
  by (induction d k v rule: dict_set.induct) auto

lemma length_append_slot: "length (append_slot sls slot) = Suc (length sls)"
  by (simp add: append_slot_def)

lemma length_foldl_append_slot:
  "length (foldl (\<lambda>sls i. append_slot sls (f i)) acc is) = length acc + length is"
  by (induction "is" arbitrary: acc) (simp_all add: length_append_slot)

lemma length_create_slots: "length (create_slots vt count) = nat count"
  by (simp add: create_slots_def length_foldl_append_slot)

lemma total_slots_initialize:
  "total_slots (initialize_slots cfg s) =
     foldl (\<lambda>d (vt, count). dict_set d vt count) (total_slots s) cfg"
  unfolding initialize_slots_def
  by (induction cfg arbitrary: s) (simp_all add: case_prod_unfold)

lemma slots_initialize:
  "slots (initialize_slots cfg s) =
     foldl (\<lambda>d (vt, count). dict_set d vt (create_slots vt count)) (slots s) cfg"
  unfolding initialize_slots_def
  by (induction cfg arbitrary: s) (simp_all add: case_prod_unfold)

lemma lock_initialize: "lock (initialize_slots cfg s) = lock s"
  unfolding initialize_slots_def
  by (induction cfg arbitrary: s) (simp_all add: case_prod_unfold)

lemma sized_foldl:
  "sized t d \<Longrightarrow>
   sized (foldl (\<lambda>d (vt, count). dict_set d vt count) t cfg)
         (foldl (\<lambda>d (vt, count). dict_set d vt (create_slots vt count)) d cfg)"
proof (induction cfg arbitrary: t d)
  case Nil
  then show ?case by simp
next
  case (Cons p cfg)
  obtain vt count where p: "p = (vt, count)" by (cases p)
  have "sized (dict_set t vt count) (dict_set d vt (create_slots vt count))"
    using Cons.prems by (auto simp: sized_def dict_get_dict_set length_create_slots)
  from Cons.IH [OF this] show ?case by (simp add: p)
qed

lemma sized_init:
  "sized (total_slots (ParkingLotManager_init cfg h)) (slots (ParkingLotManager_init cfg h))"
  unfolding ParkingLotManager_init_def total_slots_initialize slots_initialize
  by (rule sized_foldl) (simp add: sized_def)

lemma total_slots_init_heap:
  "total_slots (ParkingLotManager_init cfg h) = total_slots (ParkingLotManager_init cfg h')"
  by (simp add: ParkingLotManager_init_def total_slots_initialize)

section \<open>The scans\<close>

lemma first_available_first_fit:
  "first_available sls = Some i \<longleftrightarrow>
     i < length sls \<and> status (sls ! i) = AVAILABLE \<and> (\<forall>j<i. status (sls ! j) \<noteq> AVAILABLE)"
proof (induction sls arbitrary: i)
  case Nil
  then show ?case by simp
next
  case (Cons x sls)
  show ?case
  proof (cases "status x = AVAILABLE")
    case True
    then show ?thesis by (cases i) auto
  next
    case False
    show ?thesis
    proof (cases i)
      case 0
      with False show ?thesis by simp
    next
      case (Suc k)
      have "(\<forall>j<Suc k. status ((x # sls) ! j) \<noteq> AVAILABLE) =
            (\<forall>j<k. status (sls ! j) \<noteq> AVAILABLE)"
        using False by (auto simp: less_Suc_eq_0_disj)
      with False Suc Cons.IH [of k] show ?thesis by auto
    qed
  qed
qed

lemma first_available_none:
  "first_available sls = None \<longleftrightarrow> list_all (\<lambda>sl. status sl \<noteq> AVAILABLE) sls"
  by (induction sls) auto

lemma remove_in_list_length:
  "remove_in_list sid sls = Some (v, sls') \<Longrightarrow> length sls' = length sls"
  by (induction sls arbitrary: v sls') (auto split: if_splits)

lemma remove_in_dict_lengths:
  "remove_in_dict sid d = Some (v, d') \<Longrightarrow>
   map_option length (dict_get d' vt) = map_option length (dict_get d vt)"
proof (induction d arbitrary: v d')
  case Nil
  then show ?case by simp
next
  case (Cons p d)
  obtain k sls where p: "p = (k, sls)" by (cases p)
  show ?case
  proof (cases "remove_in_list sid sls")
    case None
    with Cons.prems p obtain d'' where d'': "remove_in_dict sid d = Some (v, d'')" "d' = (k, sls) # d''"
      by auto
    from Cons.IH [OF d''(1)] show ?thesis by (simp add: p d''(2))
  next
    case (Some r)
    obtain w sls' where r: "r = (w, sls')" by (cases r)
    with Some Cons.prems p have "d' = (k, sls') # d" by simp
    moreover have "length sls' = length sls" using Some r remove_in_list_length by blast
    ultimately show ?thesis by (simp add: p)
  qed
qed

lemma remove_vehicle_cases:
  "final_state (remove_vehicle sid s) = s \<or>
   (\<exists>v d'. remove_in_dict sid (slots s) = Some (v, d') \<and>
            final_state (remove_vehicle sid s) = s\<lparr>slots := d'\<rparr>)"
  by (cases "lock s"; cases "remove_in_dict sid (slots s)")
     (auto simp: remove_vehicle_def with_lock_def)

lemma sized_remove:
  assumes "sized t d" and "remove_in_dict sid d = Some (v, d')"
  shows "sized t d'"
  unfolding sized_def
proof (intro allI impI)
  fix vt c assume "dict_get t vt = Some c"
  with assms(1) obtain sls where sls: "dict_get d vt = Some sls" "length sls = nat c"
    by (auto simp: sized_def)
  from remove_in_dict_lengths [OF assms(2), of vt] sls
  show "\<exists>sls. dict_get d' vt = Some sls \<and> length sls = nat c"
    by (cases "dict_get d' vt") auto
qed

lemma remove_in_list_none:
  "list_all (\<lambda>sl. slot_id sl \<noteq> sid \<or> status sl \<noteq> OCCUPIED) sls \<Longrightarrow>
   remove_in_list sid sls = None"
  by (induction sls) auto

lemma remove_in_dict_none:
  "list_all (\<lambda>sl. slot_id sl \<noteq> sid \<or> status sl \<noteq> OCCUPIED) (concat (map snd d)) \<Longrightarrow>
   remove_in_dict sid d = None"
  by (induction d) (auto simp: remove_in_list_none)

lemma release_slot_other:
  "list_all (\<lambda>sl. slot_id sl \<noteq> sid) sls \<Longrightarrow> map (release_slot sid) sls = sls"
  by (induction sls) (auto simp: release_slot_def)

lemma release_slot_hit:
  "slot_id sl = sid \<Longrightarrow>
   release_slot sid sl = sl\<lparr>status := AVAILABLE, vehicle := None, reservation_time := None\<rparr>"
  by (simp add: release_slot_def)

lemma release_slot_miss: "slot_id sl \<noteq> sid \<Longrightarrow> release_slot sid sl = sl"
  by (simp add: release_slot_def)

lemma remove_in_list_absent:
  "list_all (\<lambda>sl. slot_id sl \<noteq> sid) sls \<Longrightarrow> remove_in_list sid sls = None"
  by (induction sls) auto

lemma remove_in_list_occupied:
  assumes "distinct (map slot_id sls)" and "sl \<in> set sls"
    and "slot_id sl = sid" and "status sl = OCCUPIED"
  shows "remove_in_list sid sls = Some (vehicle sl, map (release_slot sid) sls)"
  using assms
proof (induction sls)
  case Nil
  then show ?case by simp
next
  case (Cons x sls)
  show ?case
  proof (cases "x = sl")
    case True
    from Cons.prems(1) True Cons.prems(3)
    have "slot_id sl \<notin> slot_id ` set sls" and "slot_id sl = sid" by simp_all
    then have "list_all (\<lambda>y. slot_id y \<noteq> sid) sls"
      unfolding list_all_iff by blast
    then have "map (release_slot sid) sls = sls" by (rule release_slot_other)
    with True Cons.prems(3,4) show ?thesis by (simp add: release_slot_hit)
  next
    case False
    with Cons.prems have in_tl: "sl \<in> set sls" by simp
    with Cons.prems(1,3) have "slot_id x \<noteq> sid" by force
    moreover from Cons.prems(1) have "distinct (map slot_id sls)" by simp
    ultimately show ?thesis
      using Cons.IH in_tl Cons.prems(3,4) by (simp add: release_slot_miss)
  qed
qed

lemma remove_in_dict_occupied:
  assumes "distinct (map slot_id (concat (map snd d)))" and "sl \<in> set (concat (map snd d))"
    and "slot_id sl = sid" and "status sl = OCCUPIED"
  shows "remove_in_dict sid d =
           Some (vehicle sl, map (\<lambda>(vt, sls). (vt, map (release_slot sid) sls)) d)"
  using assms
proof (induction d)
  case Nil
  then show ?case by simp
next
  case (Cons p d)
  obtain k sls where p: "p = (k, sls)" by (cases p)
  from Cons.prems(1) p have dist: "distinct (map slot_id sls)"
    "distinct (map slot_id (concat (map snd d)))"
    "slot_id ` set sls \<inter> slot_id ` set (concat (map snd d)) = {}"
    by auto
  show ?case
  proof (cases "sl \<in> set sls")
    case True
    with dist(3) Cons.prems(3)
    have "list_all (\<lambda>y. slot_id y \<noteq> sid) (concat (map snd d))"
      unfolding list_all_iff by blast
    then have "list_all (list_all (\<lambda>y. slot_id y \<noteq> sid)) (map snd d)"
      by (simp add: list_all_iff)
    then have "map (\<lambda>(vt, sls). (vt, map (release_slot sid) sls)) d = d"
      by (induction d) (auto simp: release_slot_other)
    with remove_in_list_occupied [OF dist(1) True Cons.prems(3,4)] show ?thesis
      by (simp add: p)
  next
    case False
    with Cons.prems(2) p have in_d: "sl \<in> set (concat (map snd d))" by auto
    with dist(3) Cons.prems(3) have absent: "list_all (\<lambda>y. slot_id y \<noteq> sid) sls"
      unfolding list_all_iff by blast
    from Cons.IH [OF dist(2) in_d Cons.prems(3,4)]
      remove_in_list_absent [OF absent] release_slot_other [OF absent]
    show ?thesis by (simp add: p)
  qed
qed

lemma filter_update_count:
  "i < length xs \<Longrightarrow> \<not> P (xs ! i) \<Longrightarrow> P y \<Longrightarrow>
   length (filter P (xs[i := y])) = Suc (length (filter P xs))"
proof (induction xs arbitrary: i)
  case Nil
  then show ?case by simp
next
  case (Cons x xs)
  then show ?case by (cases i) auto
qed

lemma slots_of_dict_set:
  "slots_of (s\<lparr>slots := dict_set (slots s) vt sls, heap := h\<rparr>) vt = sls"
  by (simp add: slots_of_def dict_get_dict_set)

section \<open>Capacity\<close>

lemma reachable_total_slots:
  "reachable cfg s \<Longrightarrow> total_slots s = total_slots (ParkingLotManager_init cfg h0)"
proof (induction rule: reachable.induct)
  case (init h)
  show ?case by (rule total_slots_init_heap)
next
  case (park s now v)
  then show ?case by (simp add: park_vehicle_blocks)
next
  case (remove s sid)
  from remove_vehicle_cases [of sid s] remove.IH show ?case by auto
next
  case (caller s h)
  then show ?case by simp
qed

lemma reachable_sized: "reachable cfg s \<Longrightarrow> sized (total_slots s) (slots s)"
proof (induction rule: reachable.induct)
  case (init h)
  show ?case by (rule sized_init)
next
  case (park s now v)
  then show ?case by (simp add: park_vehicle_blocks)
next
  case (remove s sid)
  from remove_vehicle_cases [of sid s] show ?case
  proof (elim disjE exE conjE)
    assume "final_state (remove_vehicle sid s) = s"
    with remove.IH show ?thesis by simp
  next
    fix v d'
    assume "remove_in_dict sid (slots s) = Some (v, d')"
      and "final_state (remove_vehicle sid s) = s\<lparr>slots := d'\<rparr>"
    with sized_remove [OF remove.IH] show ?thesis by simp
  qed
next
  case (caller s h)
  then show ?case by simp
qed

section \<open>Occupancy fields\<close>

lemma slot_consistent_init: "slot_consistent (ParkingSlot_init sid vt)"
  by (simp add: slot_consistent_def ParkingSlot_init_def)

lemma slot_consistent_links:
  "slot_consistent (sl\<lparr>next_slot := n\<rparr>) = slot_consistent sl"
  "slot_consistent (sl\<lparr>prev_slot := p\<rparr>) = slot_consistent sl"
  by (simp_all add: slot_consistent_def)

lemma append_slot_consistent:
  assumes "list_all slot_consistent sls" and "slot_consistent slot"
  shows "list_all slot_consistent (append_slot sls slot)"
proof (cases "sls = []")
  case True
  with assms show ?thesis by (simp add: append_slot_def)
next
  case False
  then have "sls = butlast sls @ [last sls]" by simp
  then have "list_all slot_consistent sls =
      list_all slot_consistent (butlast sls @ [last sls])" by simp
  with assms(1) have "list_all slot_consistent (butlast sls)" "slot_consistent (last sls)"
    by simp_all
  with False assms(2) show ?thesis
    by (simp add: append_slot_def slot_consistent_links)
qed

lemma foldl_append_slot_consistent:
  "list_all slot_consistent acc \<Longrightarrow>
   list_all slot_consistent
     (foldl (\<lambda>sls i. append_slot sls (ParkingSlot_init (f i) vt)) acc is)"
  by (induction "is" arbitrary: acc)
     (simp_all add: append_slot_consistent slot_consistent_init)

lemma create_slots_consistent: "list_all slot_consistent (create_slots vt count)"
  unfolding create_slots_def by (rule foldl_append_slot_consistent) simp

lemma dict_consistent_Cons [simp]:
  "dict_consistent ((k, sls) # d) = (list_all slot_consistent sls \<and> dict_consistent d)"
  by (simp add: dict_consistent_def)

lemma dict_consistent_Nil [simp]: "dict_consistent []"
  by (simp add: dict_consistent_def)

lemma dict_set_consistent:
  "dict_consistent d \<Longrightarrow> list_all slot_consistent sls \<Longrightarrow> dict_consistent (dict_set d k sls)"
  by (induction d k sls rule: dict_set.induct) auto

lemma foldl_dict_consistent:
  "dict_consistent d \<Longrightarrow>
   dict_consistent (foldl (\<lambda>d (vt, count). dict_set d vt (create_slots vt count)) d cfg)"
  by (induction cfg arbitrary: d)
     (auto simp: dict_set_consistent create_slots_consistent)

lemma init_consistent: "state_consistent (ParkingLotManager_init cfg h)"
  unfolding state_consistent_def all_slots_def ParkingLotManager_init_def slots_initialize
  using foldl_dict_consistent [of "[]" cfg] by (simp add: dict_consistent_def)

lemma remove_in_list_consistent:
  "remove_in_list sid sls = Some (v, sls') \<Longrightarrow> list_all slot_consistent sls \<Longrightarrow>
   list_all slot_consistent sls'"
  by (induction sls arbitrary: v sls') (auto split: if_splits simp: slot_consistent_def)

lemma remove_in_dict_consistent:
  "remove_in_dict sid d = Some (v, d') \<Longrightarrow> dict_consistent d \<Longrightarrow> dict_consistent d'"
proof (induction d arbitrary: v d')
  case Nil
  then show ?case by simp
next
  case (Cons p d)
  obtain k sls where p: "p = (k, sls)" by (cases p)
  show ?case
  proof (cases "remove_in_list sid sls")
    case None
    with Cons.prems p obtain d'' where d'': "remove_in_dict sid d = Some (v, d'')" "d' = (k, sls) # d''"
      by auto
    with Cons.IH [OF d''(1)] Cons.prems(2) show ?thesis by (simp add: p)
  next
    case (Some r)
    obtain w sls' where r: "r = (w, sls')" by (cases r)
    with Some Cons.prems p have "d' = (k, sls') # d" by simp
    moreover have "list_all slot_consistent sls'"
      using Some r remove_in_list_consistent Cons.prems(2) p by auto
    ultimately show ?thesis using Cons.prems(2) by (simp add: p)
  qed
qed

lemma remove_vehicle_consistent:
  assumes "state_consistent s"
  shows "state_consistent (final_state (remove_vehicle sid s))"
  using remove_vehicle_cases [of sid s]
proof (elim disjE exE conjE)
  assume "final_state (remove_vehicle sid s) = s"
  with assms show ?thesis by simp
next
  fix v d'
  assume "remove_in_dict sid (slots s) = Some (v, d')"
    and fs: "final_state (remove_vehicle sid s) = s\<lparr>slots := d'\<rparr>"
  then have "dict_consistent d'"
    using remove_in_dict_consistent assms
    by (auto simp: state_consistent_def all_slots_def dict_consistent_def)
  then show ?thesis
    by (simp add: fs state_consistent_def all_slots_def dict_consistent_def)
qed

lemma park_vehicle_consistent:
  "state_consistent s \<Longrightarrow> state_consistent (final_state (park_vehicle now v s))"
  by (simp add: park_vehicle_blocks state_consistent_def all_slots_def)

lemma reachable_consistent: "reachable cfg s \<Longrightarrow> state_consistent s"
proof (induction rule: reachable.induct)
  case (init h)
  show ?case by (rule init_consistent)
next
  case (park s now v)
  from park.IH show ?case by (rule park_vehicle_consistent)
next
  case (remove s sid)
  from remove.IH show ?case by (rule remove_vehicle_consistent)
next
  case (caller s h)
  then show ?case by (simp add: state_consistent_def all_slots_def)
qed

section \<open>The claims\<close>

text \<open>
  C1, as amended. In every state reachable from initialisation by calls of
  \<open>park_vehicle\<close> and \<open>remove_vehicle\<close>, and for every category whose configured
  capacity (the value recorded in \<open>total_slots\<close> at initialisation) is not negative,
  the number of slots of the category with status \<open>OCCUPIED\<close> is at most that capacity.
  The pool never grows: a category has as many slots as \<open>range(count)\<close> has elements.
\<close>

theorem capacity_never_exceeded:
  assumes "reachable slot_config s"
    and "dict_get (total_slots (ParkingLotManager_init slot_config h)) vt = Some c"
    and "0 \<le> c"
  shows "int (occupied_count s vt) \<le> c"
proof -
  have "dict_get (total_slots s) vt = Some c"
    using reachable_total_slots [OF assms(1), of h] assms(2) by simp
  with reachable_sized [OF assms(1)]
  obtain sls where "dict_get (slots s) vt = Some sls" "length sls = nat c"
    unfolding sized_def by blast
  then have "length (slots_of s vt) = nat c" by (simp add: slots_of_def)
  moreover have "occupied_count s vt \<le> length (slots_of s vt)"
    by (simp add: occupied_count_def)
  ultimately show ?thesis using assms(3) by linarith
qed

text \<open>
  The amended C1 at a lot with one car slot, after a call of \<open>remove_vehicle\<close>.
\<close>

theorem capacity_never_exceeded_witness:
  "int (occupied_count
          (final_state (remove_vehicle ''CAR_SLOT_1'' (ParkingLotManager_init [(CAR, 1)] garage)))
          CAR) \<le> 1"
proof -
  have "reachable [(CAR, 1)] (ParkingLotManager_init [(CAR, 1)] garage)"
    by (rule reachable.init)
  then have "reachable [(CAR, 1)]
      (final_state (remove_vehicle ''CAR_SLOT_1'' (ParkingLotManager_init [(CAR, 1)] garage)))"
    by (rule reachable.remove)
  moreover have "dict_get (total_slots (ParkingLotManager_init [(CAR, 1)] garage)) CAR = Some 1"
    by (simp add: lot1)
  ultimately show ?thesis
    using capacity_never_exceeded [where c = 1] by simp
qed

text \<open>
  C1 as stated fails for a negative capacity: \<open>ParkingLotManager({CAR: -1})\<close> records
  the capacity -1 and creates no slot, so zero occupied slots already exceed it.
\<close>

theorem capacity_counterexample:
  "reachable [(CAR, - 1)] (ParkingLotManager_init [(CAR, - 1)] garage) \<and>
   dict_get (total_slots (ParkingLotManager_init [(CAR, - 1)] garage)) CAR = Some (- 1) \<and>
   occupied_count (ParkingLotManager_init [(CAR, - 1)] garage) CAR = 0 \<and>
   \<not> int (occupied_count (ParkingLotManager_init [(CAR, - 1)] garage) CAR) \<le> - 1"
  by (simp add: reachable.init) (simp add: lot_neg occupied_count_def slots_of_def)

text \<open>
  C2. In every reachable state every slot has an occupant exactly when its status is
  \<open>OCCUPIED\<close>, exactly when its \<open>reservation_time\<close> is set; and from any state in
  which this holds, be it reachable or not, a call of \<open>park_vehicle\<close> and a call of
  \<open>remove_vehicle\<close> leave a state in which it holds.
\<close>

theorem occupancy_fields_agree:
  "(reachable slot_config s \<longrightarrow> list_all slot_consistent (all_slots s)) \<and>
   (list_all slot_consistent (all_slots s') \<longrightarrow>
      list_all slot_consistent (all_slots (final_state (park_vehicle now v s'))) \<and>
      list_all slot_consistent (all_slots (final_state (remove_vehicle sid s'))))"
  using reachable_consistent [of slot_config s] park_vehicle_consistent [of s' now v]
    remove_vehicle_consistent [of s' sid]
  by (simp add: state_consistent_def)

text \<open>
  C2 at the fresh lot with one car slot, and at the lot whose slot is occupied, which
  \<open>remove_vehicle\<close> clears.
\<close>

theorem occupancy_fields_agree_witness:
  "list_all slot_consistent (all_slots (ParkingLotManager_init [(CAR, 1)] garage)) \<and>
   list_all slot_consistent (all_slots (lot_occupied 100)) \<and>
   list_all slot_consistent (all_slots (final_state (park_vehicle 100 0 (lot_occupied 100)))) \<and>
   list_all slot_consistent
     (all_slots (final_state (remove_vehicle ''CAR_SLOT_1'' (lot_occupied 100))))"
proof -
  have r: "reachable [(CAR, 1)] (ParkingLotManager_init [(CAR, 1)] garage)"
    by (rule reachable.init)
  have c: "list_all slot_consistent (all_slots (lot_occupied 100))"
    by (simp add: lot_occupied_def all_slots_def slot_consistent_def ParkingSlot_init_def)
  from r c occupancy_fields_agree
    [of "[(CAR, 1)]" "ParkingLotManager_init [(CAR, 1)] garage" "lot_occupied 100" 100 0
        "''CAR_SLOT_1''"]
  show ?thesis by simp
qed

text \<open>
  C3, as amended. There are no distinct outcomes for an unknown and for a full category.
  When the requested category is not in the pool, or is there but has no slot with status
  \<open>AVAILABLE\<close>, the lookup \<open>find_available_slot\<close>, called with the lock free,
  answers \<open>None\<close> in both cases and leaves the state as it was. Given the answer
  \<open>None\<close>, lines 108-125 of \<open>park_vehicle\<close> return \<open>None\<close> and change nothing.
  Given the first available slot of the vehicle's category, and an occupied count below
  the recorded capacity, they return that slot and the occupied count of the category
  grows by exactly one. Nothing is said about whether a call of \<open>park_vehicle\<close> as
  a whole returns.
\<close>

theorem park_lookup_and_effect:
  "(\<not> lock s \<and>
    (dict_get (slots s) vt = None \<or>
     list_all (\<lambda>sl. status sl \<noteq> AVAILABLE) (slots_of s vt)) \<longrightarrow>
      find_available_slot vt s = Returns None s) \<and>
   park_after_lookup now v None s = Returns None s \<and>
   (vehicle_type (heap s v) = vt \<and> first_available (slots_of s vt) = Some i \<and>
    dict_get (total_slots s) vt = Some cap \<and> int (occupied_count s vt) < cap \<longrightarrow>
      (\<exists>slot s'. park_after_lookup now v (Some i) s = Returns (Some slot) s' \<and>
         slot_id slot = slot_id (slots_of s vt ! i) \<and>
         occupied_count s' vt = occupied_count s vt + 1 \<and>
         total_slots s' = total_slots s \<and> lock s' = lock s))"
proof (intro conjI impI)
  assume a: "\<not> lock s \<and>
    (dict_get (slots s) vt = None \<or>
     list_all (\<lambda>sl. status sl \<noteq> AVAILABLE) (slots_of s vt))"
  then have "list_all (\<lambda>sl. status sl \<noteq> AVAILABLE) (slots_of s vt)"
    by (auto simp: slots_of_def)
  then have "first_available (slots_of s vt) = None" by (simp add: first_available_none)
  with a show "find_available_slot vt s = Returns None s"
    by (simp add: find_available_slot_free)
next
  show "park_after_lookup now v None s = Returns None s"
    by (simp add: park_after_lookup_def)
next
  assume a: "vehicle_type (heap s v) = vt \<and> first_available (slots_of s vt) = Some i \<and>
    dict_get (total_slots s) vt = Some cap \<and> int (occupied_count s vt) < cap"
  define sls where "sls = slots_of s vt"
  from a have fa: "first_available sls = Some i" by (simp add: sls_def)
  then have i: "i < length sls" "status (sls ! i) = AVAILABLE"
    by (simp_all add: first_available_first_fit)
  from fa have "sls \<noteq> []" by auto
  then have get: "dict_get (slots s) vt = Some sls"
    unfolding sls_def slots_of_def by (cases "dict_get (slots s) vt") simp_all
  from a have occ: "int (length (filter (\<lambda>sl. status sl = OCCUPIED) sls)) < cap"
    by (simp add: occupied_count_def sls_def)
  define slot where "slot = (sls ! i)\<lparr>status := OCCUPIED, vehicle := Some v,
                                      reservation_time := Some now\<rparr>"
  define s' where "s' = s\<lparr>slots := dict_set (slots s) vt (sls[i := slot]),
      heap := (heap s)(v := (heap s v)\<lparr>parking_slot_id := Some (slot_id slot)\<rparr>)\<rparr>"
  have run: "park_after_lookup now v (Some i) s = Returns (Some slot) s'"
    using a get occ by (simp add: park_after_lookup_def Let_def slot_def s'_def)
  have "slots_of s' vt = sls[i := slot]"
    unfolding s'_def by (rule slots_of_dict_set)
  moreover have "length (filter (\<lambda>sl. status sl = OCCUPIED) (sls[i := slot])) =
      Suc (length (filter (\<lambda>sl. status sl = OCCUPIED) sls))"
    using i by (intro filter_update_count) (simp_all add: slot_def)
  ultimately have count: "occupied_count s' vt = occupied_count s vt + 1"
    by (simp add: occupied_count_def sls_def)
  have "slot_id slot = slot_id (slots_of s vt ! i)" by (simp add: slot_def sls_def)
  moreover have "total_slots s' = total_slots s" "lock s' = lock s" by (simp_all add: s'_def)
  ultimately show "\<exists>slot s'. park_after_lookup now v (Some i) s = Returns (Some slot) s' \<and>
         slot_id slot = slot_id (slots_of s vt ! i) \<and>
         occupied_count s' vt = occupied_count s vt + 1 \<and>
         total_slots s' = total_slots s \<and> lock s' = lock s"
    using run count by blast
qed

text \<open>
  The amended C3 at the fresh lot with one car slot: the lookup for a truck, and lines
  108-125 for the car with reference 0, once with no slot and once with the slot at
  position 0.
\<close>

theorem park_lookup_and_effect_witness:
  "find_available_slot TRUCK (ParkingLotManager_init [(CAR, 1)] garage) =
     Returns None (ParkingLotManager_init [(CAR, 1)] garage) \<and>
   park_after_lookup 100 0 None (ParkingLotManager_init [(CAR, 1)] garage) =
     Returns None (ParkingLotManager_init [(CAR, 1)] garage) \<and>
   (\<exists>slot s'. park_after_lookup 100 0 (Some 0) (ParkingLotManager_init [(CAR, 1)] garage) =
        Returns (Some slot) s' \<and> slot_id slot = ''CAR_SLOT_1'' \<and> occupied_count s' CAR = 1)"
proof -
  have h1: "\<not> lock (ParkingLotManager_init [(CAR, 1)] garage) \<and>
    (dict_get (slots (ParkingLotManager_init [(CAR, 1)] garage)) TRUCK = None \<or>
     list_all (\<lambda>sl. status sl \<noteq> AVAILABLE)
       (slots_of (ParkingLotManager_init [(CAR, 1)] garage) TRUCK))"
    by (simp add: lot1)
  have h2: "vehicle_type (heap (ParkingLotManager_init [(CAR, 1)] garage) 0) = CAR \<and>
    first_available (slots_of (ParkingLotManager_init [(CAR, 1)] garage) CAR) = Some 0 \<and>
    dict_get (total_slots (ParkingLotManager_init [(CAR, 1)] garage)) CAR = Some 1 \<and>
    int (occupied_count (ParkingLotManager_init [(CAR, 1)] garage) CAR) < 1"
    by (simp add: lot1 garage_def vehicle_A_def slots_of_def occupied_count_def
        ParkingSlot_init_def)
  have v: "slot_id (slots_of (ParkingLotManager_init [(CAR, 1)] garage) CAR ! 0) = ''CAR_SLOT_1''"
    "occupied_count (ParkingLotManager_init [(CAR, 1)] garage) CAR = 0"
    by (simp_all add: lot1 slots_of_def occupied_count_def ParkingSlot_init_def)
  from park_lookup_and_effect
    [of "ParkingLotManager_init [(CAR, 1)] garage" TRUCK 100 0]
  have "find_available_slot TRUCK (ParkingLotManager_init [(CAR, 1)] garage) =
     Returns None (ParkingLotManager_init [(CAR, 1)] garage)"
    and "park_after_lookup 100 0 None (ParkingLotManager_init [(CAR, 1)] garage) =
     Returns None (ParkingLotManager_init [(CAR, 1)] garage)"
    using h1 by blast+
  moreover from park_lookup_and_effect
    [of "ParkingLotManager_init [(CAR, 1)] garage" CAR 100 0 0 1] h2
  have "\<exists>slot s'. park_after_lookup 100 0 (Some 0) (ParkingLotManager_init [(CAR, 1)] garage) =
        Returns (Some slot) s' \<and> slot_id slot = ''CAR_SLOT_1'' \<and> occupied_count s' CAR = 1"
    unfolding v by auto
  ultimately show ?thesis by blast
qed

text \<open>
  C3 as stated fails: in a lot with a car category of capacity 0, the lookup answers
  \<open>None\<close> for the unknown category \<open>TRUCK\<close> and for the full category \<open>CAR\<close>
  alike, and lines 108-125, which see nothing but that answer, return \<open>None\<close> for the
  truck and for the car: the code has one failure value, not two outcomes.
\<close>

theorem park_outcome_counterexample:
  "dict_get (slots (ParkingLotManager_init [(CAR, 0)] garage)) TRUCK = None \<and>
   dict_get (slots (ParkingLotManager_init [(CAR, 0)] garage)) CAR = Some [] \<and>
   find_available_slot TRUCK (ParkingLotManager_init [(CAR, 0)] garage) =
     Returns None (ParkingLotManager_init [(CAR, 0)] garage) \<and>
   find_available_slot CAR (ParkingLotManager_init [(CAR, 0)] garage) =
     Returns None (ParkingLotManager_init [(CAR, 0)] garage) \<and>
   vehicle_type (garage 1) = TRUCK \<and>
   park_after_lookup 100 1 None (ParkingLotManager_init [(CAR, 0)] garage) =
     Returns None (ParkingLotManager_init [(CAR, 0)] garage) \<and>
   vehicle_type (garage 0) = CAR \<and>
   park_after_lookup 100 0 None (ParkingLotManager_init [(CAR, 0)] garage) =
     Returns None (ParkingLotManager_init [(CAR, 0)] garage)"
  by (simp add: lot0 garage_def vehicle_A_def vehicle_B_def find_available_slot_free
      slots_of_def park_after_lookup_def)

text \<open>
  C4, as amended. When no slot with the identifier \<open>sid\<close> has status
  \<open>OCCUPIED\<close>, because there is no such slot or because it is not occupied,
  \<open>remove_vehicle\<close> gives no vehicle and leaves the whole state unchanged; called
  with the lock free it returns \<open>None\<close>, the same value in both cases.
\<close>

theorem release_failure_unchanged:
  assumes "\<forall>sl\<in>set (all_slots s). slot_id sl = sid \<longrightarrow> status sl \<noteq> OCCUPIED"
  shows "returned (remove_vehicle sid s) = None \<and> final_state (remove_vehicle sid s) = s \<and>
         (\<not> lock s \<longrightarrow> remove_vehicle sid s = Returns None s)"
proof -
  from assms have "list_all (\<lambda>sl. slot_id sl \<noteq> sid \<or> status sl \<noteq> OCCUPIED) (all_slots s)"
    by (auto simp: list_all_iff)
  then have "remove_in_dict sid (slots s) = None"
    unfolding all_slots_def by (rule remove_in_dict_none)
  then show ?thesis
    by (cases "lock s") (simp_all add: remove_vehicle_def with_lock_def)
qed

text \<open>
  The amended C4 at the fresh lot with one car slot, for the identifier of that slot.
\<close>

theorem release_failure_unchanged_witness:
  "remove_vehicle ''CAR_SLOT_1'' (ParkingLotManager_init [(CAR, 1)] garage) =
     Returns None (ParkingLotManager_init [(CAR, 1)] garage)"
  using release_failure_unchanged
    [of "ParkingLotManager_init [(CAR, 1)] garage" "''CAR_SLOT_1''"]
  by (simp add: lot1 all_slots_def ParkingSlot_init_def)

text \<open>
  C4 as stated fails: at the fresh lot with one car slot, the identifier
  \<open>TRUCK_SLOT_9\<close> of no slot and the identifier \<open>CAR_SLOT_1\<close> of an available slot
  get the same outcome, \<open>None\<close>.
\<close>

theorem release_failure_counterexample:
  "remove_vehicle ''TRUCK_SLOT_9'' (ParkingLotManager_init [(CAR, 1)] garage) =
     Returns None (ParkingLotManager_init [(CAR, 1)] garage) \<and>
   remove_vehicle ''CAR_SLOT_1'' (ParkingLotManager_init [(CAR, 1)] garage) =
     Returns None (ParkingLotManager_init [(CAR, 1)] garage) \<and>
   map slot_id (all_slots (ParkingLotManager_init [(CAR, 1)] garage)) = [''CAR_SLOT_1''] \<and>
   map status (all_slots (ParkingLotManager_init [(CAR, 1)] garage)) = [AVAILABLE]"
  by (simp add: lot1 remove_vehicle_def with_lock_def ParkingSlot_init_def all_slots_def)

text \<open>
  C5, as amended. In a state whose lock is free and whose slot identifiers are pairwise
  distinct, if the slot with identifier \<open>sid\<close> is occupied, \<open>remove_vehicle\<close> sets
  its status to \<open>AVAILABLE\<close>, clears its \<open>vehicle\<close> and \<open>reservation_time\<close>,
  changes nothing else, and returns the occupant alone: the time recorded when the
  vehicle was parked is erased and not returned.
\<close>

theorem release_returns_occupant_only:
  assumes "\<not> lock s" and "distinct (map slot_id (all_slots s))"
    and "sl \<in> set (all_slots s)" and "slot_id sl = sid" and "status sl = OCCUPIED"
  shows "remove_vehicle sid s =
           Returns (vehicle sl)
             (s\<lparr>slots := map (\<lambda>(vt, sls). (vt, map (release_slot sid) sls)) (slots s)\<rparr>)"
  using assms(1) remove_in_dict_occupied [OF assms(2-5) [unfolded all_slots_def]]
  by (simp add: remove_vehicle_def with_lock_def)

text \<open>
  The amended C5 at the lot whose car slot has been occupied since time 100.
\<close>

theorem release_returns_occupant_only_witness:
  "remove_vehicle ''CAR_SLOT_1'' (lot_occupied 100) =
     Returns (Some 0) (ParkingLotManager_init [(CAR, 1)] garage)"
  using release_returns_occupant_only
    [of "lot_occupied 100"
        "(ParkingSlot_init ''CAR_SLOT_1'' CAR)
           \<lparr>status := OCCUPIED, vehicle := Some 0, reservation_time := Some 100\<rparr>"
        "''CAR_SLOT_1''"]
  by (simp add: lot1 lot_occupied_def all_slots_def ParkingSlot_init_def release_slot_def)

text \<open>
  C5 as stated fails: for the lot occupied since time 100 and the lot occupied since
  time 200 the call has the same outcome, the reference to the vehicle and a state in
  which the time is erased; the vehicle's own \<open>entry_time\<close>, 10, is the time of its
  creation.
\<close>

theorem release_timestamp_counterexample:
  "remove_vehicle ''CAR_SLOT_1'' (lot_occupied 100) =
     Returns (Some 0) (ParkingLotManager_init [(CAR, 1)] garage) \<and>
   remove_vehicle ''CAR_SLOT_1'' (lot_occupied 200) =
     Returns (Some 0) (ParkingLotManager_init [(CAR, 1)] garage) \<and>
   map reservation_time (all_slots (lot_occupied 100)) = [Some 100] \<and>
   map reservation_time (all_slots (ParkingLotManager_init [(CAR, 1)] garage)) = [None] \<and>
   entry_time (garage 0) = 10"
  by (simp add: lot1 lot_occupied_def remove_vehicle_def with_lock_def ParkingSlot_init_def
      all_slots_def garage_def vehicle_A_def)

text \<open>
  C6, at a lot with one car slot. The lookup selects the first slot,
  \<open>CAR_SLOT_1\<close>; but \<open>park_vehicle\<close> does not return it: the call hangs with the
  lock held, and the call of \<open>remove_vehicle\<close> that follows hangs as well.
\<close>

theorem park_release_park_blocks:
  "find_available_slot CAR (ParkingLotManager_init [(CAR, 1)] garage) =
     Returns (Some 0) (ParkingLotManager_init [(CAR, 1)] garage) \<and>
   map slot_id (slots_of (ParkingLotManager_init [(CAR, 1)] garage) CAR) = [''CAR_SLOT_1''] \<and>
   park_vehicle 100 0 (ParkingLotManager_init [(CAR, 1)] garage) =
     Blocks ((ParkingLotManager_init [(CAR, 1)] garage)\<lparr>lock := True\<rparr>) \<and>
   remove_vehicle ''CAR_SLOT_1'' ((ParkingLotManager_init [(CAR, 1)] garage)\<lparr>lock := True\<rparr>) =
     Blocks ((ParkingLotManager_init [(CAR, 1)] garage)\<lparr>lock := True\<rparr>)"
  by (simp add: park_vehicle_blocks)
     (simp add: lot1 find_available_slot_free slots_of_def ParkingSlot_init_def
        remove_vehicle_def with_lock_held)




text \<open>
  C8, as amended. When the exit time is earlier than the entry time, the fee
  computation returns an amount, the minimum charge 5.
\<close>

theorem fee_negative_interval:
  "now < entry_time veh \<Longrightarrow> get_parking_fee now veh = 5"
  by (simp add: get_parking_fee_def max_def)

text \<open>
  The amended C8 for the car created at time 10 and the exit time 9.
\<close>

theorem fee_negative_interval_witness: "get_parking_fee 9 vehicle_A = 5"
  using fee_negative_interval [of 9 vehicle_A] by (simp add: vehicle_A_def)

text \<open>
  C8 as stated fails: for the car created at time 10 and the exit time 9 the
  computation returns the amount 5.
\<close>

theorem fee_negative_interval_counterexample:
  "entry_time vehicle_A = 10 \<and> get_parking_fee 9 vehicle_A = 5"
  by (simp add: get_parking_fee_def vehicle_A_def)

text \<open>
  C9. No call of \<open>park_vehicle\<close> returns or raises, in any state: the lookup is a
  second acquisition of the lock, made while the first is held. The call leaves the lock
  held, so that every later lookup hangs too.
\<close>

theorem park_vehicle_never_returns:
  "(\<nexists>r t. park_vehicle now v s = Returns r t) \<and>
   (\<nexists>e t. park_vehicle now v s = Raises e t) \<and>
   lock (final_state (park_vehicle now v s)) \<and>
   find_available_slot vt (final_state (park_vehicle now v s)) =
     Blocks (final_state (park_vehicle now v s))"
  by (simp add: park_vehicle_blocks find_available_slot_held)

text \<open>
  C10, at a lot with one car slot and the car with reference 0. The call of
  \<open>park_vehicle\<close> hangs, and the \<open>parking_slot_id\<close> of the car is still
  \<open>None\<close>.
\<close>

theorem park_leaves_occupant_untouched:
  "park_vehicle 100 0 (ParkingLotManager_init [(CAR, 1)] garage) =
     Blocks ((ParkingLotManager_init [(CAR, 1)] garage)\<lparr>lock := True\<rparr>) \<and>
   vehicle_type (garage 0) = CAR \<and>
   parking_slot_id
     (heap (final_state (park_vehicle 100 0 (ParkingLotManager_init [(CAR, 1)] garage))) 0) = None"
  by (simp add: park_vehicle_blocks) (simp add: lot1 garage_def vehicle_A_def)

end
